theory Spec2Isabelle
  imports Main
begin

unbundle bit_operations_syntax

section \<open>The RC522 reader session of \<^verbatim>\<open>pirc522/rfid.py\<close>\<close>

text \<open>
  The class \<^verbatim>\<open>RFID\<close> drives the reader chip through two-byte SPI frames. The model
  keeps Python's unbounded integers as \<open>int\<close>, the session object as a record that is
  passed through every method, and exceptions as values: a method is a function from the
  session to a result (\<open>Inl\<close> the exception raised, \<open>Inr\<close> the value returned) and
  the session as the method left it.

  The SPI object \<^verbatim>\<open>self.spi\<close> is external. It is a state \<open>spi\<close> of any type and
  its method \<open>xfer2\<close>, about which nothing is assumed. Every transfer, with its
  answer, and every toggle of the chip-select line is appended to the trace \<open>io\<close>,
  so that what reached the bus can be counted. Calls of the logger change neither
  the session nor the bus and are left out.
\<close>

datatype exn = ValueError | IndexError

datatype io_event =
    CE_off
  | CE_on
  | Xfer "int list" "int list"

record 'd rfid =
  pin_ce :: int
  spi :: 'd
  xfer2 :: "'d \<Rightarrow> int list \<Rightarrow> int list \<times> 'd"
  antenna_gain :: int
  authed :: bool
  io :: "io_event list"

type_synonym ('d, 'a) prog = "'d rfid \<Rightarrow> (exn + 'a) \<times> 'd rfid"

definition ret :: "'a \<Rightarrow> ('d, 'a) prog" where
  "ret x s = (Inr x, s)"

definition throw :: "exn \<Rightarrow> ('d, 'a) prog" where
  "throw e s = (Inl e, s)"

definition bnd :: "('d, 'a) prog \<Rightarrow> ('a \<Rightarrow> ('d, 'b) prog) \<Rightarrow> ('d, 'b) prog" where
  "bnd m f s = (case m s of (Inl e, s') \<Rightarrow> (Inl e, s') | (Inr x, s') \<Rightarrow> f x s')"

definition thn :: "('d, 'a) prog \<Rightarrow> ('d, 'b) prog \<Rightarrow> ('d, 'b) prog" where
  "thn m k = bnd m (\<lambda>_. k)"

definition emit :: "io_event \<Rightarrow> ('d, unit) prog" where
  "emit e s = (Inr (), s\<lparr>io := io s @ [e]\<rparr>)"

text \<open>The messages sent over the bus, with the answers, in order.\<close>

fun transfers :: "io_event list \<Rightarrow> (int list \<times> int list) list" where
  "transfers [] = []"
| "transfers (Xfer d r # es) = (d, r) # transfers es"
| "transfers (e # es) = transfers es"

definition sent :: "'d rfid \<Rightarrow> int list list" where
  "sent s = map fst (transfers (io s))"

subsection \<open>Python values\<close>

text \<open>
  \<^verbatim>\<open>bool\<close> is a subclass of \<^verbatim>\<open>int\<close> (\<^verbatim>\<open>~False == -1\<close>), \<^verbatim>\<open>x and y\<close> is \<open>x\<close> when
  \<open>x\<close> is falsy and \<open>y\<close> otherwise, and an integer is truthy when it is not 0.
\<close>

definition py_bool :: "bool \<Rightarrow> int" where
  "py_bool b = (if b then 1 else 0)"

definition py_and :: "int \<Rightarrow> int \<Rightarrow> int" where
  "py_and a b = (if a = 0 then a else b)"

definition truthy :: "int \<Rightarrow> bool" where
  "truthy a = (a \<noteq> 0)"

text \<open>\<^verbatim>\<open>xs[i]\<close> for an index that is not negative.\<close>

definition py_index :: "'a list \<Rightarrow> nat \<Rightarrow> ('d, 'a) prog" where
  "py_index xs i = (if i < length xs then ret (xs ! i) else throw IndexError)"

text \<open>\<^verbatim>\<open>for i in range(n): buf.append(xs[i])\<close>, which touches nothing but \<open>buf\<close>.\<close>

definition py_items :: "'a list \<Rightarrow> nat \<Rightarrow> ('d, 'a list) prog" where
  "py_items xs n = (if n \<le> length xs then ret (take n xs) else throw IndexError)"


subsection \<open>Constants of the class\<close>

definition addr_CommandReg :: int where [simp]: "addr_CommandReg = 0x01"
definition addr_ComIEnReg :: int where [simp]: "addr_ComIEnReg = 0x02"
definition addr_ComIrqReq :: int where [simp]: "addr_ComIrqReq = 0x04"
definition addr_DivIrqReg :: int where [simp]: "addr_DivIrqReg = 0x05"
definition addr_ErrorReg :: int where [simp]: "addr_ErrorReg = 0x06"
definition addr_Status2Reg :: int where [simp]: "addr_Status2Reg = 0x08"
definition addr_FIFODataReg :: int where [simp]: "addr_FIFODataReg = 0x09"
definition addr_FIFOLevelReg :: int where [simp]: "addr_FIFOLevelReg = 0x0A"
definition addr_ControlReg :: int where [simp]: "addr_ControlReg = 0x0C"
definition addr_BitFramingReg :: int where [simp]: "addr_BitFramingReg = 0x0D"
definition addr_RFCfgReg :: int where [simp]: "addr_RFCfgReg = 0x26"
definition addr_CRCResultReg21 :: int where [simp]: "addr_CRCResultReg21 = 0x21"
definition addr_CRCResultReg22 :: int where [simp]: "addr_CRCResultReg22 = 0x22"

definition mode_idle :: int where [simp]: "mode_idle = 0x00"
definition mode_auth :: int where [simp]: "mode_auth = 0x0E"
definition mode_transrec :: int where [simp]: "mode_transrec = 0x0C"
definition mode_crc :: int where [simp]: "mode_crc = 0x03"

definition act_read :: int where [simp]: "act_read = 0x30"
definition act_anticl :: int where [simp]: "act_anticl = 0x93"
definition act_anticl2 :: int where [simp]: "act_anticl2 = 0x95"

definition length_max :: int where [simp]: "length_max = 16"

subsection \<open>Register access\<close>

definition spi_transfer :: "int list \<Rightarrow> ('d, int list) prog" where
  "spi_transfer data =
     thn (\<lambda>s. if pin_ce s \<noteq> 0 then emit CE_off s else ret () s)
    (bnd (\<lambda>s. case xfer2 s (spi s) data of
                 (r, d) \<Rightarrow> (Inr r, s\<lparr>spi := d, io := io s @ [Xfer data r]\<rparr>)) (\<lambda>r.
     thn (\<lambda>s. if pin_ce s \<noteq> 0 then emit CE_on s else ret () s)
    (ret r)))"

definition dev_write :: "int \<Rightarrow> int \<Rightarrow> ('d, unit) prog" where
  "dev_write address v =
     thn (spi_transfer [push_bit 1 address AND 0x7E, v]) (ret ())"

definition dev_read :: "int \<Rightarrow> ('d, int) prog" where
  "dev_read address =
     bnd (spi_transfer [(push_bit 1 address AND 0x7E) OR 0x80, 0]) (\<lambda>r. py_index r 1)"

definition set_bitmask :: "int \<Rightarrow> int \<Rightarrow> ('d, unit) prog" where
  "set_bitmask address msk =
     bnd (dev_read address) (\<lambda>current. dev_write address (current OR msk))"

definition clear_bitmask :: "int \<Rightarrow> int \<Rightarrow> ('d, unit) prog" where
  "clear_bitmask address msk =
     bnd (dev_read address) (\<lambda>current. dev_write address (current AND NOT msk))"


definition set_antenna_gain :: "int \<Rightarrow> ('d, unit) prog" where
  "set_antenna_gain gain =
     (if 0 \<le> gain \<and> gain \<le> 7
      then thn (\<lambda>s. (Inr (), s\<lparr>antenna_gain := gain\<rparr>))
               (\<lambda>s. dev_write addr_RFCfgReg (push_bit 4 (antenna_gain s)) s)
      else throw ValueError)"

subsection \<open>The command executor\<close>

text \<open>\<^verbatim>\<open>for i in range(len(data)): self.dev_write(self.addr_FIFODataReg, data[i])\<close>\<close>

fun write_fifo :: "int list \<Rightarrow> ('d, unit) prog" where
  "write_fifo [] = ret ()"
| "write_fifo (b # bs) = thn (dev_write addr_FIFODataReg b) (write_fifo bs)"

text \<open>\<^verbatim>\<open>for i in range(n): back_data.append(self.dev_read(self.addr_FIFODataReg))\<close>\<close>

fun read_fifo :: "nat \<Rightarrow> ('d, int list) prog" where
  "read_fifo 0 = ret []"
| "read_fifo (Suc k) =
     bnd (dev_read addr_FIFODataReg) (\<lambda>b.
     bnd (read_fifo k) (\<lambda>bs. ret (b # bs)))"

text \<open>The interrupt masks chosen for a command: \<open>(irq, irq_wait)\<close>.\<close>

definition irq_masks :: "int \<Rightarrow> int \<times> int" where
  "irq_masks command =
     (let (irq, irq_wait) = (0x00, 0x00);
          (irq, irq_wait) = (if command = mode_auth then (0x12, 0x10) else (irq, irq_wait));
          (irq, irq_wait) = (if command = mode_transrec then (0x77, 0x30) else (irq, irq_wait))
      in (irq, irq_wait))"

text \<open>
  The test that leaves the polling loop, as line 243 writes it:
  \<^verbatim>\<open>~((i != 0) and ~(n & 0x01) and ~(n & irq_wait))\<close>.
\<close>

definition irq_loop_exit :: "nat \<Rightarrow> int \<Rightarrow> int \<Rightarrow> bool" where
  "irq_loop_exit i n irq_wait =
     truthy (NOT (py_and (py_and (py_bool (i \<noteq> 0)) (NOT (n AND 0x01))) (NOT (n AND irq_wait))))"

lemma bnd_cong [fundef_cong]:
  assumes "m1 = m2" and "s1 = s2"
    and "\<And>x s'. m2 s2 = (Inr x, s') \<Longrightarrow> f1 x s' = f2 x s'"
  shows "bnd m1 f1 s1 = bnd m2 f2 s2"
  using assms by (auto simp: bnd_def split: prod.splits sum.splits)

lemma irq_loop_exit_0: "irq_loop_exit 0 n irq_wait"
  by (simp add: irq_loop_exit_def py_and_def py_bool_def truthy_def)

text \<open>
  The loop of lines 239 to 244. The counter starts at 2000, is decremented once per
  poll and the loop is left when it reaches 0, so it is never negative and is a \<open>nat\<close>.
  The result is the last byte polled and the counter.
\<close>

function card_write_poll :: "int \<Rightarrow> nat \<Rightarrow> ('d, int \<times> nat) prog" where
  "card_write_poll irq_wait i s =
     bnd (dev_read addr_ComIrqReq) (\<lambda>n.
       if irq_loop_exit (i - 1) n irq_wait then ret (n, i - 1)
       else card_write_poll irq_wait (i - 1)) s"
  by pat_completeness auto
termination
proof (relation "measure (\<lambda>(irq_wait, i, s). i)")
  show "wf (measure (\<lambda>(irq_wait :: int, i :: nat, s :: 'a rfid). i))"
    by simp
next
  fix irq_wait :: int and i :: nat and s :: "'a rfid" and x :: int and s' :: "'a rfid"
  assume "\<not> irq_loop_exit (i - 1) x irq_wait"
  then have "i - 1 \<noteq> 0"
    using irq_loop_exit_0 by metis
  then show "((irq_wait, i - 1, s'), (irq_wait, i, s)) \<in> measure (\<lambda>(irq_wait, i, s). i)"
    by simp
qed

declare card_write_poll.simps [simp del]

text \<open>Lines 214 to 237: what is sent before the polling starts.\<close>

definition card_write_begin :: "int \<Rightarrow> int list \<Rightarrow> ('d, int \<times> int) prog" where
  "card_write_begin command data =
     (let (irq, irq_wait) = irq_masks command in
      thn (dev_write addr_ComIEnReg (irq OR 0x80))
     (thn (clear_bitmask addr_ComIrqReq 0x80)
     (thn (set_bitmask addr_FIFOLevelReg 0x80)
     (thn (dev_write addr_CommandReg mode_idle)
     (thn (write_fifo data)
     (thn (dev_write addr_CommandReg command)
     (thn (if command = mode_transrec then set_bitmask addr_BitFramingReg 0x80 else ret ())
          (ret (irq, irq_wait)))))))))"

text \<open>
  Lines 246 to 276: what follows the loop, from the last byte polled \<open>n\<close> and the
  counter \<open>i\<close>. The result is \<open>(error, back_data, back_length)\<close>.
\<close>

definition card_write_end ::
  "int \<Rightarrow> int \<Rightarrow> int \<Rightarrow> nat \<Rightarrow> ('d, bool \<times> int list \<times> int) prog" where
  "card_write_end command irq n i =
     thn (clear_bitmask addr_BitFramingReg 0x80)
     (if i \<noteq> 0 then
        bnd (dev_read addr_ErrorReg) (\<lambda>e.
        if e AND 0x1B = 0x00 then
          (let error = False;
               error = (if truthy (n AND irq AND 0x01) then True else error)
           in if command = mode_transrec then
                bnd (dev_read addr_FIFOLevelReg) (\<lambda>n.
                bnd (dev_read addr_ControlReg) (\<lambda>c.
                let last_bits = c AND 0x07;
                    back_length =
                      (if last_bits \<noteq> 0 then (n - 1) * 8 + last_bits else n * 8);
                    n = (if n = 0 then 1 else n);
                    n = (if n > length_max then length_max else n)
                in bnd (read_fifo (nat n)) (\<lambda>back_data.
                   ret (error, back_data, back_length))))
              else ret (error, [], 0))
        else ret (True, [], 0))
      else ret (False, [], 0))"

definition card_write :: "int \<Rightarrow> int list \<Rightarrow> ('d, bool \<times> int list \<times> int) prog" where
  "card_write command data =
     bnd (card_write_begin command data) (\<lambda>(irq, irq_wait).
     bnd (card_write_poll irq_wait 2000) (\<lambda>(n, i).
     card_write_end command irq n i))"

subsection \<open>The CRC coprocessor\<close>

text \<open>The test that leaves the loop of lines 395 to 400: \<^verbatim>\<open>not ((i != 0) and not (n & 0x04))\<close>.\<close>

definition crc_loop_exit :: "nat \<Rightarrow> int \<Rightarrow> bool" where
  "crc_loop_exit i n = (\<not> (i \<noteq> 0 \<and> \<not> truthy (n AND 0x04)))"

function calculate_crc_poll :: "nat \<Rightarrow> ('d, int \<times> nat) prog" where
  "calculate_crc_poll i s =
     bnd (dev_read addr_DivIrqReg) (\<lambda>n.
       if crc_loop_exit (i - 1) n then ret (n, i - 1)
       else calculate_crc_poll (i - 1)) s"
  by pat_completeness auto
termination
  by (relation "measure (\<lambda>(i, s). i)") (auto simp: crc_loop_exit_def)

declare calculate_crc_poll.simps [simp del]

definition calculate_crc :: "int list \<Rightarrow> ('d, int list) prog" where
  "calculate_crc data =
     thn (clear_bitmask addr_DivIrqReg 0x04)
    (thn (set_bitmask addr_FIFOLevelReg 0x80)
    (thn (write_fifo data)
    (thn (dev_write addr_CommandReg mode_crc)
    (bnd (calculate_crc_poll 255) (\<lambda>(n, i).
     bnd (dev_read addr_CRCResultReg22) (\<lambda>r22.
     bnd (dev_read addr_CRCResultReg21) (\<lambda>r21.
     ret [r22, r21])))))))"

subsection \<open>Protocol procedures\<close>



definition anticoll :: "('d, bool \<times> int list) prog" where
  "anticoll =
     thn (dev_write addr_BitFramingReg 0x00)
    (bnd (card_write mode_transrec [act_anticl, 0x20]) (\<lambda>(error, back_data, back_bits).
     let error =
       (if \<not> error then
          (if length back_data = 5 then
             (let serial_number_check = foldl (XOR) 0 (take 4 back_data)
              in if serial_number_check \<noteq> back_data ! 4 then True else error)
           else True)
        else error)
     in ret (error, back_data)))"

definition anticoll2 :: "('d, bool \<times> int list) prog" where
  "anticoll2 =
     thn (dev_write addr_BitFramingReg 0x00)
    (bnd (card_write mode_transrec [act_anticl2, 0x20]) (\<lambda>(error, back_data, back_bits).
     let error =
       (if \<not> error then
          (if length back_data = 5 then
             (let serial_number_check = foldl (XOR) 0 (take 4 back_data)
              in if serial_number_check \<noteq> back_data ! 4 then True else error)
           else True)
        else error)
     in ret (error, back_data)))"


definition card_auth :: "int \<Rightarrow> int \<Rightarrow> int list \<Rightarrow> int list \<Rightarrow> ('d, bool) prog" where
  "card_auth auth_mode block_address key uid =
     bnd (py_items uid 4) (\<lambda>u.
     let buf = [auth_mode, block_address] @ key @ u in
     bnd (card_write mode_auth buf) (\<lambda>(error, back_data, back_length).
     bnd (dev_read addr_Status2Reg) (\<lambda>status2.
     let error = (if \<not> (status2 AND 0x08 \<noteq> 0) then True else error) in
     thn (if \<not> error then (\<lambda>s. (Inr (), s\<lparr>authed := True\<rparr>)) else ret ())
         (ret error))))"



definition read :: "int \<Rightarrow> ('d, bool \<times> int list) prog" where
  "read block_address =
     (let buf = [act_read, block_address] in
      bnd (calculate_crc buf) (\<lambda>crc.
      bnd (py_index crc 0) (\<lambda>crc0.
      bnd (py_index crc 1) (\<lambda>crc1.
      bnd (card_write mode_transrec (buf @ [crc0, crc1])) (\<lambda>(error, back_data, back_length).
      let error = (if length back_data \<noteq> 16 then True else error)
      in ret (error, back_data))))))"






subsection \<open>Transport stubs\<close>

text \<open>
  A transport whose state is the list of bytes it will answer to register reads, in
  order, each as the second byte of an answer as long as the frame. A write frame is
  answered with zeros and uses up nothing; once the list is empty every read is
  answered with 0.
\<close>

definition stub_xfer2 :: "int list \<Rightarrow> int list \<Rightarrow> int list \<times> int list" where
  "stub_xfer2 script data =
     (case data of
        [] \<Rightarrow> ([], script)
      | a # _ \<Rightarrow>
          if a AND 0x80 = 0 then (map (\<lambda>_. 0) data, script)
          else (case script of
                  [] \<Rightarrow> (map (\<lambda>_. 0) data, [])
                | v # vs \<Rightarrow> ((map (\<lambda>_. 0) data)[1 := v], vs)))"

definition stub :: "int list \<Rightarrow> int list rfid" where
  "stub script =
     \<lparr>pin_ce = 0, spi = script, xfer2 = stub_xfer2, antenna_gain = 0x04,
      authed = False, io = []\<rparr>"

text \<open>A transport that answers every frame with the same byte in every place.\<close>

definition const_xfer2 :: "int \<Rightarrow> unit \<Rightarrow> int list \<Rightarrow> int list \<times> unit" where
  "const_xfer2 v d data = (map (\<lambda>_. v) data, d)"

definition const_stub :: "int \<Rightarrow> unit rfid" where
  "const_stub v =
     \<lparr>pin_ce = 0, spi = (), xfer2 = const_xfer2 v, antenna_gain = 0x04,
      authed = False, io = []\<rparr>"

section \<open>Vocabulary of the properties\<close>

text \<open>
  The contract of \<^verbatim>\<open>spidev\<close>'s \<^verbatim>\<open>xfer2\<close>: the answer is as long as the message.
  Under it no register read can raise \<^verbatim>\<open>IndexError\<close>.
\<close>

definition full_duplex :: "'d rfid \<Rightarrow> bool" where
  "full_duplex s \<longleftrightarrow> (\<forall>d data. length (fst (xfer2 s d data)) = length data)"

text \<open>
  A method returns, raising nothing and leaving the transport's \<open>xfer2\<close> in place, on
  every session whose transport keeps the contract.
\<close>

definition returns :: "('d, 'a) prog \<Rightarrow> bool" where
  "returns m \<longleftrightarrow>
     (\<forall>s. full_duplex s \<longrightarrow> (\<exists>x s'. m s = (Inr x, s') \<and> xfer2 s' = xfer2 s))"

text \<open>A transport that answers every two-byte frame with the same second byte.\<close>

definition constant_answer :: "int \<Rightarrow> 'd rfid \<Rightarrow> bool" where
  "constant_answer v s \<longleftrightarrow> (\<forall>d a b. fst (xfer2 s d [a, b]) ! 1 = v)"

text \<open>The two frames of lines 178 and 181: a register write and a register read.\<close>

definition write_frame :: "int \<Rightarrow> int \<Rightarrow> int list" where
  "write_frame address v = [push_bit 1 address AND 0x7E, v]"

definition read_frame :: "int \<Rightarrow> int list" where
  "read_frame address = [(push_bit 1 address AND 0x7E) OR 0x80, 0]"

text \<open>The values that a list of frames writes to the register at an address, in order.\<close>

definition values_written :: "int \<Rightarrow> int list list \<Rightarrow> int list" where
  "values_written address fs =
     concat (map (\<lambda>f. case f of
                        [a, v] \<Rightarrow> if a = push_bit 1 address AND 0x7E then [v] else []
                      | _ \<Rightarrow> []) fs)"

definition written :: "int \<Rightarrow> 'd rfid \<Rightarrow> int list" where
  "written address s = values_written address (sent s)"

section \<open>Running the methods\<close>

lemma transfers_append: "transfers (xs @ ys) = transfers xs @ transfers ys"
  by (induction xs rule: transfers.induct) auto

lemma bnd_Inr_iff:
  "bnd m f s = (Inr y, s') \<longleftrightarrow> (\<exists>x s1. m s = (Inr x, s1) \<and> f x s1 = (Inr y, s'))"
  by (auto simp: bnd_def split: prod.splits sum.splits)

lemma thn_Inr_iff:
  "thn m k s = (Inr y, s') \<longleftrightarrow> (\<exists>x s1. m s = (Inr x, s1) \<and> k s1 = (Inr y, s'))"
  by (simp add: thn_def bnd_Inr_iff)

lemma bnd_Inr: "m s = (Inr x, s1) \<Longrightarrow> bnd m f s = f x s1"
  by (simp add: bnd_def)


lemma bnd_ret [simp]: "bnd (ret x) f = f x"
  by (rule ext) (simp add: bnd_def ret_def)

lemma thn_ret [simp]: "thn (ret x) k = k"
  by (simp add: thn_def)

lemma returns_ret: "returns (ret x)"
  by (simp add: returns_def ret_def)

lemma full_duplex_xfer2: "xfer2 s' = xfer2 s \<Longrightarrow> full_duplex s' = full_duplex s"
  by (simp add: full_duplex_def)

lemma constant_answer_xfer2: "xfer2 s' = xfer2 s \<Longrightarrow> constant_answer v s' = constant_answer v s"
  by (simp add: constant_answer_def)

lemma returns_bnd:
  assumes "returns m" and "\<And>x. returns (f x)"
  shows "returns (bnd m f)"
  unfolding returns_def
proof (intro allI impI)
  fix s :: "'a rfid"
  assume s: "full_duplex s"
  with assms(1) obtain x s1 where 1: "m s = (Inr x, s1)" and 2: "xfer2 s1 = xfer2 s"
    by (auto simp: returns_def)
  from s have "full_duplex s1"
    using full_duplex_xfer2 [OF 2] by simp
  with assms(2) [of x] obtain y s' where "f x s1 = (Inr y, s')" and "xfer2 s' = xfer2 s1"
    by (auto simp: returns_def)
  with 1 2 show "\<exists>y s'. bnd m f s = (Inr y, s') \<and> xfer2 s' = xfer2 s"
    by (simp add: bnd_def)
qed

lemma returns_state:
  assumes "returns m" and "full_duplex s" and "m s = (r, s')"
  shows "full_duplex s' \<and> xfer2 s' = xfer2 s \<and> (\<exists>x. r = Inr x)"
proof -
  from assms(1,2) obtain x s1 where "m s = (Inr x, s1)" and "xfer2 s1 = xfer2 s"
    by (auto simp: returns_def)
  with assms(2,3) show ?thesis
    by (auto simp: full_duplex_def)
qed

lemma returns_thn: "returns m \<Longrightarrow> returns k \<Longrightarrow> returns (thn m k)"
  by (simp add: thn_def returns_bnd)

lemma spi_transfer_eq:
  "spi_transfer data s =
     (Inr (fst (xfer2 s (spi s) data)),
      s\<lparr>spi := snd (xfer2 s (spi s) data),
        io := io s @ (if pin_ce s \<noteq> 0 then [CE_off] else []) @
              [Xfer data (fst (xfer2 s (spi s) data))] @
              (if pin_ce s \<noteq> 0 then [CE_on] else [])\<rparr>)"
  by (simp add: spi_transfer_def thn_def bnd_def emit_def ret_def split: prod.splits)

lemma dev_write_eq:
  "dev_write a v s =
     (Inr (), snd (spi_transfer [push_bit 1 a AND 0x7E, v] s))"
  by (simp add: dev_write_def thn_def bnd_def ret_def spi_transfer_eq)

lemma returns_dev_write: "returns (dev_write a v)"
  by (simp add: returns_def dev_write_eq spi_transfer_eq)

lemma returns_dev_read: "returns (dev_read a)"
  by (simp add: returns_def dev_read_def bnd_def spi_transfer_eq full_duplex_def py_index_def ret_def)

lemma returns_set_bitmask: "returns (set_bitmask a m)"
  unfolding set_bitmask_def by (intro returns_bnd returns_dev_read returns_dev_write)

lemma returns_clear_bitmask: "returns (clear_bitmask a m)"
  unfolding clear_bitmask_def by (intro returns_bnd returns_dev_read returns_dev_write)

lemma returns_write_fifo: "returns (write_fifo bs)"
  by (induction bs) (simp_all add: returns_thn returns_dev_write returns_ret)

lemma returns_read_fifo: "returns (read_fifo k)"
  by (induction k) (simp_all add: returns_bnd returns_dev_read returns_ret)


lemma returns_if: "returns a \<Longrightarrow> returns b \<Longrightarrow> returns (if c then a else b)"
  by simp

lemma returns_case_prod: "(\<And>a b. returns (f a b)) \<Longrightarrow> returns (case p of (a, b) \<Rightarrow> f a b)"
  by (cases p) simp

lemma returns_Let: "returns (f x) \<Longrightarrow> returns (Let x f)"
  by simp

lemma returns_emit: "returns (emit e)"
  by (simp add: returns_def emit_def)

lemma card_write_poll_unfold:
  "card_write_poll w i = bnd (dev_read addr_ComIrqReq) (\<lambda>n.
       if irq_loop_exit (i - 1) n w then ret (n, i - 1) else card_write_poll w (i - 1))"
  by (rule ext) (rule card_write_poll.simps)

lemma calculate_crc_poll_unfold:
  "calculate_crc_poll i = bnd (dev_read addr_DivIrqReg) (\<lambda>n.
       if crc_loop_exit (i - 1) n then ret (n, i - 1) else calculate_crc_poll (i - 1))"
  by (rule ext) (rule calculate_crc_poll.simps)

lemma returns_card_write_poll: "returns (card_write_poll w i)"
proof (induction i)
  case 0
  show ?case
    by (subst card_write_poll_unfold)
      (simp add: irq_loop_exit_0 returns_bnd returns_dev_read returns_ret)
next
  case (Suc i)
  show ?case
    by (subst card_write_poll_unfold)
      (simp add: Suc returns_bnd returns_dev_read returns_ret)
qed

lemma returns_calculate_crc_poll: "returns (calculate_crc_poll i)"
proof (induction i)
  case 0
  show ?case
    by (subst calculate_crc_poll_unfold)
      (simp add: crc_loop_exit_def returns_bnd returns_dev_read returns_ret)
next
  case (Suc i)
  show ?case
    by (subst calculate_crc_poll_unfold)
      (simp add: Suc returns_bnd returns_dev_read returns_ret)
qed

lemmas returns_rules =
  returns_bnd returns_thn returns_if returns_case_prod returns_Let returns_ret returns_emit
  returns_dev_read returns_dev_write returns_set_bitmask returns_clear_bitmask
  returns_write_fifo returns_read_fifo returns_card_write_poll returns_calculate_crc_poll

lemma returns_card_write_begin: "returns (card_write_begin c d)"
  unfolding card_write_begin_def by (intro returns_rules)

lemma returns_card_write_end: "returns (card_write_end c irq n i)"
  unfolding card_write_end_def by (intro returns_rules)

lemma returns_card_write: "returns (card_write c d)"
  unfolding card_write_def
  by (intro returns_rules returns_card_write_begin returns_card_write_end)

lemma returns_calculate_crc: "returns (calculate_crc d)"
  unfolding calculate_crc_def by (intro returns_rules)


lemma sent_append_io: "sent (s\<lparr>io := io s @ es\<rparr>) = sent s @ map fst (transfers es)"
  by (simp add: sent_def transfers_append)

lemma dev_write_sent:
  "dev_write a v s = (r, s') \<Longrightarrow> r = Inr () \<and> sent s' = sent s @ [[push_bit 1 a AND 0x7E, v]]"
  by (auto simp: dev_write_eq spi_transfer_eq sent_def transfers_append)

lemma dev_read_sent:
  "dev_read a s = (Inr v, s') \<Longrightarrow>
     sent s' = sent s @ [[(push_bit 1 a AND 0x7E) OR 0x80, 0]] \<and>
     (\<exists>r. transfers (io s') = transfers (io s) @ [([(push_bit 1 a AND 0x7E) OR 0x80, 0], r)] \<and>
          v = r ! 1)"
  by (auto simp: dev_read_def bnd_def spi_transfer_eq sent_def transfers_append py_index_def
      ret_def throw_def split: if_splits)

lemma set_bitmask_sent:
  "set_bitmask a m s = (Inr u, s') \<Longrightarrow>
     \<exists>cur. sent s' = sent s @ [[(push_bit 1 a AND 0x7E) OR 0x80, 0], [push_bit 1 a AND 0x7E, cur OR m]]"
  by (auto simp: set_bitmask_def bnd_Inr_iff dest!: dev_read_sent dev_write_sent)

lemma clear_bitmask_sent:
  "clear_bitmask a m s = (Inr u, s') \<Longrightarrow>
     \<exists>cur. sent s' = sent s @ [[(push_bit 1 a AND 0x7E) OR 0x80, 0], [push_bit 1 a AND 0x7E, cur AND NOT m]]"
  by (auto simp: clear_bitmask_def bnd_Inr_iff dest!: dev_read_sent dev_write_sent)

lemma write_fifo_sent:
  "write_fifo bs s = (Inr u, s') \<Longrightarrow> sent s' = sent s @ map (\<lambda>b. [0x12, b]) bs"
  by (induction bs arbitrary: s) (auto simp: ret_def thn_Inr_iff dest!: dev_write_sent)


lemma card_write_poll_sent:
  "card_write_poll w i s = (Inr (n, j), s') \<Longrightarrow> 0 < i \<Longrightarrow>
     j < i \<and> sent s' = sent s @ replicate (i - j) [0x88, 0] \<and>
     (j \<noteq> 0 \<longrightarrow> irq_loop_exit j n w)"
proof (induction i arbitrary: s)
  case 0
  then show ?case by simp
next
  case (Suc i)
  from Suc.prems(1) obtain m s1 where
    1: "dev_read addr_ComIrqReq s = (Inr m, s1)" and
    2: "(if irq_loop_exit i m w then ret (m, i) else card_write_poll w i) s1 = (Inr (n, j), s')"
    by (subst (asm) card_write_poll.simps) (auto simp: bnd_Inr_iff cong: if_cong)
  show ?case
  proof (cases "irq_loop_exit i m w")
    case True
    with 2 dev_read_sent [OF 1] show ?thesis by (auto simp: ret_def)
  next
    case False
    then have "0 < i" using irq_loop_exit_0 by (cases i) auto
    with False 2 Suc.IH [of s1] dev_read_sent [OF 1] show ?thesis
      by (auto simp: replicate_app_Cons_same Suc_diff_le simp flip: replicate_Suc)
  qed
qed

lemma card_write_begin_sent:
  "card_write_begin c d s = (Inr (irq, w), s') \<Longrightarrow>
     (irq, w) = irq_masks c \<and>
     (\<exists>x y z. sent s' = sent s @ [[0x04, irq OR 0x80], [0x88, 0], [0x08, x], [0x94, 0], [0x14, y], [0x02, 0]]
        @ map (\<lambda>b. [0x12, b]) d @ [[0x02, c]] @ (if c = mode_transrec then [[0x9A, 0], [0x1A, z]] else []))"
  by (auto simp: card_write_begin_def thn_Inr_iff ret_def split: prod.splits if_splits
      dest!: dev_write_sent set_bitmask_sent clear_bitmask_sent write_fifo_sent)


subsection \<open>The polling loop of the command executor\<close>

lemma irq_loop_exit_iff:
  assumes "0 \<le> w"
  shows "irq_loop_exit i n w \<longleftrightarrow> (i = 0 \<or> n AND w \<noteq> 0)"
proof -
  have nz: "NOT (n AND m) \<noteq> 0" if "0 \<le> m" for m
  proof
    assume "NOT (n AND m) = 0"
    then have "n AND m = - 1" by (simp add: not_int_def)
    moreover have "0 \<le> n AND m" using that by simp
    ultimately show False by simp
  qed
  from nz [of 1] nz [OF assms] show ?thesis
    by (auto simp: irq_loop_exit_def py_and_def py_bool_def truthy_def)
qed

lemma irq_masks_cases:
  "irq_masks c = (if c = mode_transrec then (0x77, 0x30) else if c = mode_auth then (0x12, 0x10) else (0, 0))"
  by (simp add: irq_masks_def)

lemma irq_wait_nonneg: "0 \<le> snd (irq_masks c)"
  by (simp add: irq_masks_cases)

lemma dev_read_answer:
  "full_duplex s \<Longrightarrow>
     \<exists>s'. dev_read a s = (Inr (fst (xfer2 s (spi s) [(push_bit 1 a AND 0x7E) OR 0x80, 0]) ! 1), s') \<and>
          xfer2 s' = xfer2 s \<and> sent s' = sent s @ [[(push_bit 1 a AND 0x7E) OR 0x80, 0]]"
  by (simp add: dev_read_def bnd_def spi_transfer_eq full_duplex_def py_index_def ret_def
      sent_def transfers_append)

lemma card_write_poll_constant:
  assumes "full_duplex s" and "constant_answer v s" and "v AND w = 0" and "0 \<le> w" and "0 < i"
  shows "\<exists>s'. card_write_poll w i s = (Inr (v, 0), s') \<and> sent s' = sent s @ replicate i [0x88, 0]"
  using assms
proof (induction i arbitrary: s)
  case 0
  then show ?case by simp
next
  case (Suc i)
  from dev_read_answer [OF Suc.prems(1), of addr_ComIrqReq] Suc.prems(2)
  obtain s1 where 1: "dev_read addr_ComIrqReq s = (Inr v, s1)" and 2: "xfer2 s1 = xfer2 s"
    and 3: "sent s1 = sent s @ [[0x88, 0]]"
    by (auto simp: constant_answer_def)
  from 2 Suc.prems have 4: "full_duplex s1" "constant_answer v s1"
    by (simp_all add: full_duplex_def constant_answer_def)
  show ?case
  proof (cases i)
    case 0
    with 1 3 show ?thesis
      by (simp add: card_write_poll.simps [of w "Suc 0"] bnd_def irq_loop_exit_0 ret_def)
  next
    case (Suc k)
    then have "\<not> irq_loop_exit i v w"
      using Suc.prems by (simp add: irq_loop_exit_iff)
    moreover from Suc.IH [OF 4 Suc.prems(3,4)] Suc obtain s' where
      "card_write_poll w i s1 = (Inr (v, 0), s')" "sent s' = sent s1 @ replicate i [0x88, 0]"
      by auto
    ultimately show ?thesis using 1 3
      by (simp add: card_write_poll.simps [of w "Suc i"] bnd_def replicate_app_Cons_same)
  qed
qed

lemma card_write_begin_returns:
  assumes "full_duplex s"
  shows "\<exists>s1. card_write_begin c d s = (Inr (irq_masks c), s1) \<and> xfer2 s1 = xfer2 s"
proof -
  from assms returns_card_write_begin [of c d] obtain x s1 where
    1: "card_write_begin c d s = (Inr x, s1)" and 2: "xfer2 s1 = xfer2 s"
    by (auto simp: returns_def)
  from card_write_begin_sent [of c d s "fst x" "snd x" s1] 1 have "x = irq_masks c"
    by simp
  with 1 2 show ?thesis by simp
qed

lemma card_write_constant_answer:
  assumes "full_duplex s" and "constant_answer v s" and "v AND snd (irq_masks c) = 0"
  shows "\<exists>s1 s2. card_write_begin c d s = (Inr (irq_masks c), s1) \<and>
           card_write_poll (snd (irq_masks c)) 2000 s1 = (Inr (v, 0), s2) \<and>
           full_duplex s2"
proof -
  from card_write_begin_returns [OF assms(1)] obtain s1 where
    1: "card_write_begin c d s = (Inr (irq_masks c), s1)" and 2: "xfer2 s1 = xfer2 s"
    by blast
  from 2 assms have 3: "full_duplex s1" "constant_answer v s1"
    by (simp_all add: full_duplex_def constant_answer_def)
  from card_write_poll_constant [OF 3 assms(3) irq_wait_nonneg, of 2000] obtain s2 where
    4: "card_write_poll (snd (irq_masks c)) 2000 s1 = (Inr (v, 0), s2)"
    by auto
  from returns_state [OF returns_card_write_poll 3(1) 4] have "full_duplex s2"
    by simp
  with 1 4 show ?thesis by blast
qed

lemma card_write_steps:
  assumes "card_write_begin c d s = (Inr (irq, w), s1)"
    and "card_write_poll w 2000 s1 = (Inr (n, i), s2)"
  shows "card_write c d s = card_write_end c irq n i s2"
  using assms by (simp add: card_write_def bnd_def)

lemma card_write_end_exhausted:
  assumes "full_duplex s"
  shows "\<exists>s'. card_write_end c irq n 0 s = (Inr (False, [], 0), s')"
proof -
  from assms returns_clear_bitmask [of addr_BitFramingReg "0x80"]
  obtain u s' where "clear_bitmask addr_BitFramingReg 0x80 s = (Inr u, s')"
    by (auto simp: returns_def)
  then show ?thesis
    by (simp add: card_write_end_def thn_def bnd_def ret_def)
qed

lemma full_duplex_const_stub: "full_duplex (const_stub v)"
  by (simp add: full_duplex_def const_stub_def const_xfer2_def)

lemma constant_answer_const_stub: "constant_answer v (const_stub v)"
  by (simp add: constant_answer_def const_stub_def const_xfer2_def)

subsection \<open>The CRC coprocessor and the registers written\<close>

lemma calculate_crc_poll_sent:
  "calculate_crc_poll i s = (Inr (n, j), s') \<Longrightarrow> 0 < i \<Longrightarrow>
     j < i \<and> sent s' = sent s @ replicate (i - j) [0x8A, 0]"
proof (induction i arbitrary: s)
  case 0
  then show ?case by simp
next
  case (Suc i)
  from Suc.prems(1) obtain m s1 where
    1: "dev_read addr_DivIrqReg s = (Inr m, s1)" and
    2: "(if crc_loop_exit i m then ret (m, i) else calculate_crc_poll i) s1 = (Inr (n, j), s')"
    by (subst (asm) calculate_crc_poll.simps) (auto simp: bnd_Inr_iff cong: if_cong)
  show ?case
  proof (cases "crc_loop_exit i m")
    case True
    with 2 dev_read_sent [OF 1] show ?thesis by (auto simp: ret_def)
  next
    case False
    then have "0 < i" by (cases i) (auto simp: crc_loop_exit_def)
    with False 2 Suc.IH [of s1] dev_read_sent [OF 1] show ?thesis
      by (auto simp: replicate_app_Cons_same Suc_diff_le simp flip: replicate_Suc)
  qed
qed

lemma calculate_crc_sent:
  assumes "calculate_crc data s = (Inr crc, s')"
  shows "\<exists>x y k ts r22 r21.
     crc = [r22 ! 1, r21 ! 1] \<and> 1 \<le> k \<and> k \<le> 255 \<and>
     sent s' = sent s @ [[0x8A, 0], [0x0A, x], [0x94, 0], [0x14, y]] @
               map (\<lambda>b. [0x12, b]) data @ [[0x02, 0x03]] @
               replicate k [0x8A, 0] @ [[0xC4, 0], [0xC2, 0]] \<and>
     transfers (io s') = ts @ [([0xC4, 0], r22), ([0xC2, 0], r21)]"
proof -
  from assms obtain s1 s2 s3 s4 n i s5 lo s6 hi u1 u2 u3 u4 where
    1: "clear_bitmask addr_DivIrqReg 0x04 s = (Inr u1, s1)" and
    2: "set_bitmask addr_FIFOLevelReg 0x80 s1 = (Inr u2, s2)" and
    3: "write_fifo data s2 = (Inr u3, s3)" and
    4: "dev_write addr_CommandReg mode_crc s3 = (Inr u4, s4)" and
    5: "calculate_crc_poll 255 s4 = (Inr (n, i), s5)" and
    6: "dev_read addr_CRCResultReg22 s5 = (Inr lo, s6)" and
    7: "dev_read addr_CRCResultReg21 s6 = (Inr hi, s')" and
    8: "crc = [lo, hi]"
    by (auto simp: calculate_crc_def thn_Inr_iff bnd_Inr_iff ret_def)
  from clear_bitmask_sent [OF 1] obtain x where
    s1: "sent s1 = sent s @ [[0x8A, 0], [0x0A, x]]" by auto
  from set_bitmask_sent [OF 2] obtain y where
    s2: "sent s2 = sent s1 @ [[0x94, 0], [0x14, y]]" by auto
  from write_fifo_sent [OF 3] have s3: "sent s3 = sent s2 @ map (\<lambda>b. [0x12, b]) data" .
  from dev_write_sent [OF 4] have s4: "sent s4 = sent s3 @ [[0x02, 0x03]]" by simp
  from calculate_crc_poll_sent [OF 5] have
    s5: "i < 255" "sent s5 = sent s4 @ replicate (255 - i) [0x8A, 0]" by simp_all
  from dev_read_sent [OF 6] obtain r22 where
    s6: "sent s6 = sent s5 @ [[0xC4, 0]]"
      "transfers (io s6) = transfers (io s5) @ [([0xC4, 0], r22)]" "lo = r22 ! 1"
    by auto
  from dev_read_sent [OF 7] obtain r21 where
    s7: "sent s' = sent s6 @ [[0xC2, 0]]"
      "transfers (io s') = transfers (io s6) @ [([0xC2, 0], r21)]" "hi = r21 ! 1"
    by auto
  let ?k = "255 - i"
  have "crc = [r22 ! 1, r21 ! 1]" using 8 s6 s7 by simp
  moreover have "1 \<le> ?k" "?k \<le> 255" using s5 by simp_all
  moreover have "sent s' = sent s @ [[0x8A, 0], [0x0A, x], [0x94, 0], [0x14, y]] @
               map (\<lambda>b. [0x12, b]) data @ [[0x02, 0x03]] @
               replicate ?k [0x8A, 0] @ [[0xC4, 0], [0xC2, 0]]"
    using s1 s2 s3 s4 s5 s6 s7 by simp
  moreover have "transfers (io s') = transfers (io s5) @ [([0xC4, 0], r22), ([0xC2, 0], r21)]"
    using s6 s7 by simp
  ultimately show ?thesis by blast
qed

lemma map_write_frame: "map (write_frame a) d = map (\<lambda>b. [push_bit 1 a AND 0x7E, b]) d"
  by (simp add: write_frame_def)


lemma values_written_Nil [simp]: "values_written a [] = []"
  by (simp add: values_written_def)

lemma values_written_append [simp]:
  "values_written a (xs @ ys) = values_written a xs @ values_written a ys"
  by (simp add: values_written_def)





lemma written_sent:
  "sent s' = sent s @ fs \<Longrightarrow> written a s' = written a s @ values_written a fs"
  by (simp add: written_def)












lemma xor4:
  "length bd = 5 \<Longrightarrow> foldl (XOR) (0 :: int) (take 4 bd) = bd ! 0 XOR bd ! 1 XOR bd ! 2 XOR bd ! 3"
proof -
  assume "length bd = 5"
  then obtain a b c d e where "bd = [a, b, c, d, e]"
    by (auto simp: length_Suc_conv eval_nat_numeral)
  then show ?thesis by (simp add: xor.assoc)
qed

subsection \<open>Runs on the stub\<close>

text \<open>The definitions that a run on a stub unfolds.\<close>

lemmas run_defs =
  card_write_def card_write_begin_def card_write_end_def card_write_poll.simps
  calculate_crc_def calculate_crc_poll.simps crc_loop_exit_def irq_masks_def
  bnd_def thn_def ret_def throw_def emit_def dev_read_def dev_write_def
  set_bitmask_def clear_bitmask_def spi_transfer_def py_index_def py_items_def
  irq_loop_exit_def py_and_def py_bool_def truthy_def stub_def stub_xfer2_def

lemma card_write_stub_5:
  "card_write mode_transrec [c, 0x20]
     (snd (dev_write addr_BitFramingReg 0x00 (stub [0, 0, 0, 0x30, 0, 0, 5, 0, 0x12, 0x34, 0x56, 0x78, e])))
   = (Inr (False, [0x12, 0x34, 0x56, 0x78, e], 40),
      snd (card_write mode_transrec [c, 0x20]
     (snd (dev_write addr_BitFramingReg 0x00 (stub [0, 0, 0, 0x30, 0, 0, 5, 0, 0x12, 0x34, 0x56, 0x78, e])))))"
  by (simp add: prod_eq_iff run_defs eval_nat_numeral)


text \<open>
  Whenever the loop uses up its polls, on a transport that keeps the contract,
  \<open>card_write\<close> returns the values that lines 211 to 213 set: error false, no bytes
  and a bit length of 0.
\<close>

lemma card_write_exhausted:
  assumes "full_duplex s"
    and "card_write_begin command data s = (Inr (irq, irq_wait), s1)"
    and "card_write_poll irq_wait 2000 s1 = (Inr (n, 0), s2)"
  shows "\<exists>s'. card_write command data s = (Inr (False, [], 0), s') \<and>
              sent s2 = sent s1 @ replicate 2000 [0x88, 0]"
proof -
  have "full_duplex s1"
    using returns_state [OF returns_card_write_begin assms(1,2)] by simp
  then have "full_duplex s2"
    using returns_state [OF returns_card_write_poll _ assms(3)] by simp
  then obtain s' where "card_write_end command irq n 0 s2 = (Inr (False, [], 0), s')"
    using card_write_end_exhausted by blast
  then have "card_write command data s = (Inr (False, [], 0), s')"
    by (simp add: card_write_steps [OF assms(2,3)])
  moreover have "sent s2 = sent s1 @ replicate 2000 [0x88, 0]"
    using card_write_poll_sent [OF assms(3)] by simp
  ultimately show ?thesis by blast
qed




subsection \<open>Scripted cards\<close>


































section \<open>The claims\<close>

text \<open>
  C1, at an input where the code does not do what the claim says. On a transport
  that answers 0 to everything the polling loop of a transceive uses up its 2000 polls
  and \<open>card_write\<close> returns the error flag false, with no bytes and a bit length
  of 0: the test \<^verbatim>\<open>if i != 0\<close> of line 248 has no other branch, and the flag keeps
  the value of line 213. The same on an authenticate, with every register reading
  0x08: the loop runs out, no error is reported, and since the status register shows
  bit 0x08, \<open>card_auth\<close> reports success and marks the session authenticated for a
  command that never completed.
\<close>

theorem card_write_timeout_no_error:
  "fst (card_write_poll 0x30 2000 (snd (card_write_begin mode_transrec [0x26] (const_stub 0))))
     = Inr (0, 0) \<and>
   fst (card_write mode_transrec [0x26] (const_stub 0)) = Inr (False, [], 0) \<and>
   fst (card_write_poll 0x10 2000
     (snd (card_write_begin mode_auth [0x60, 8, 0xFF, 0xFF, 0xFF, 0xFF, 0xFF, 0xFF, 0x12, 0x34, 0x56, 0x78]
        (const_stub 0x08)))) = Inr (0x08, 0) \<and>
   fst (card_auth 0x60 8 [0xFF, 0xFF, 0xFF, 0xFF, 0xFF, 0xFF] [0x12, 0x34, 0x56, 0x78, 0x08]
     (const_stub 0x08)) = Inr False \<and>
   authed (snd (card_auth 0x60 8 [0xFF, 0xFF, 0xFF, 0xFF, 0xFF, 0xFF] [0x12, 0x34, 0x56, 0x78, 0x08]
     (const_stub 0x08)))"
proof -
  from card_write_constant_answer [OF full_duplex_const_stub constant_answer_const_stub,
      of 0 mode_transrec "[0x26]"]
  obtain s1 s2 where
    b: "card_write_begin mode_transrec [0x26] (const_stub 0) = (Inr (0x77, 0x30), s1)" and
    p: "card_write_poll 0x30 2000 s1 = (Inr (0, 0), s2)" and f: "full_duplex s2"
    by (auto simp: irq_masks_cases)
  from card_write_end_exhausted [OF f, of mode_transrec "0x77" 0] card_write_steps [OF b p] b p
  have 1: "fst (card_write_poll 0x30 2000 (snd (card_write_begin mode_transrec [0x26] (const_stub 0))))
     = Inr (0, 0) \<and>
   fst (card_write mode_transrec [0x26] (const_stub 0)) = Inr (False, [], 0)"
    by auto
  let ?buf = "[0x60, 8, 0xFF, 0xFF, 0xFF, 0xFF, 0xFF, 0xFF, 0x12, 0x34, 0x56, 0x78] :: int list"
  from card_write_constant_answer [OF full_duplex_const_stub constant_answer_const_stub,
      of 8 mode_auth ?buf]
  obtain t1 t2 where
    b': "card_write_begin mode_auth ?buf (const_stub 8) = (Inr (0x12, 0x10), t1)" and
    p': "card_write_poll 0x10 2000 t1 = (Inr (8, 0), t2)" and f': "full_duplex t2"
    by (auto simp: irq_masks_cases)
  from card_write_end_exhausted [OF f', of mode_auth "0x12" 8] obtain t3 where
    e': "card_write_end mode_auth 0x12 8 0 t2 = (Inr (False, [], 0), t3)" by blast
  with card_write_steps [OF b' p'] have
    cw: "card_write mode_auth ?buf (const_stub 8) = (Inr (False, [], 0), t3)" by simp
  have x: "xfer2 t3 = const_xfer2 8"
    using returns_state [OF returns_card_write full_duplex_const_stub cw]
    by (simp add: const_stub_def)
  then have fd: "full_duplex t3"
    by (simp add: full_duplex_def const_xfer2_def)
  from dev_read_answer [OF fd, of addr_Status2Reg] x obtain t4 where
    st: "dev_read addr_Status2Reg t3 = (Inr 8, t4)"
    by (auto simp: const_xfer2_def)
  from cw st have
    "card_auth 0x60 8 [0xFF, 0xFF, 0xFF, 0xFF, 0xFF, 0xFF] [0x12, 0x34, 0x56, 0x78, 0x08]
       (const_stub 8) = (Inr False, t4\<lparr>authed := True\<rparr>)"
    by (simp add: card_auth_def py_items_def bnd_def thn_def ret_def Let_def)
  with 1 b' p' show ?thesis by simp
qed

text \<open>
  C2, at an input where the code does not do what the claim says. On a transport
  whose interrupt-request register always reads 0x01, the timer-expiry bit, line 243
  does not leave the loop at the first poll (with 1999 left): the loop runs until the
  counter is 0 and \<open>card_write\<close> reports no error and no data.
\<close>

theorem card_write_poll_ignores_timer_bit:
  "\<not> irq_loop_exit 1999 0x01 0x30 \<and>
   fst (card_write_poll 0x30 2000 (snd (card_write_begin mode_transrec [0x26] (const_stub 0x01))))
     = Inr (0x01, 0) \<and>
   fst (card_write mode_transrec [0x26] (const_stub 0x01)) = Inr (False, [], 0)"
proof -
  from card_write_constant_answer [OF full_duplex_const_stub constant_answer_const_stub,
      of 1 mode_transrec "[0x26]"]
  obtain s1 s2 where
    b: "card_write_begin mode_transrec [0x26] (const_stub 1) = (Inr (0x77, 0x30), s1)" and
    p: "card_write_poll 0x30 2000 s1 = (Inr (1, 0), s2)" and f: "full_duplex s2"
    by (auto simp: irq_masks_cases)
  have "\<not> irq_loop_exit 1999 0x01 0x30"
    by (simp add: irq_loop_exit_iff)
  with card_write_end_exhausted [OF f, of mode_transrec "0x77" 1] card_write_steps [OF b p] b p
  show ?thesis by auto
qed







text \<open>
  C5. When the transceive of \<open>anticoll\<close> (and of \<open>anticoll2\<close>) reports no error, the
  call reports an error unless the response is exactly 5 bytes whose fifth is the XOR
  of the first four; the response is handed back as it came.
\<close>

theorem anticoll_checksum:
  "(card_write mode_transrec [act_anticl, 0x20] (snd (dev_write addr_BitFramingReg 0x00 s))
      = (Inr (False, back_data, back_bits), s') \<longrightarrow>
    anticoll s =
      (Inr (\<not> (length back_data = 5 \<and>
                back_data ! 4 = back_data ! 0 XOR back_data ! 1 XOR back_data ! 2 XOR back_data ! 3),
            back_data), s')) \<and>
   (card_write mode_transrec [act_anticl2, 0x20] (snd (dev_write addr_BitFramingReg 0x00 t))
      = (Inr (False, back_data2, back_bits2), t') \<longrightarrow>
    anticoll2 t =
      (Inr (\<not> (length back_data2 = 5 \<and>
                back_data2 ! 4 =
                  back_data2 ! 0 XOR back_data2 ! 1 XOR back_data2 ! 2 XOR back_data2 ! 3),
            back_data2), t'))"
  by (auto simp: anticoll_def anticoll2_def thn_def bnd_def dev_write_eq ret_def xor4 Let_def)

theorem anticoll_checksum_witness:
  "fst (anticoll (stub [0, 0, 0, 0x30, 0, 0, 5, 0, 0x12, 0x34, 0x56, 0x78, 0x08]))
     = Inr (False, [0x12, 0x34, 0x56, 0x78, 0x08]) \<and>
   fst (anticoll (stub [0, 0, 0, 0x30, 0, 0, 5, 0, 0x12, 0x34, 0x56, 0x78, 0x09]))
     = Inr (True, [0x12, 0x34, 0x56, 0x78, 0x09]) \<and>
   fst (anticoll2 (stub [0, 0, 0, 0x30, 0, 0, 5, 0, 0x12, 0x34, 0x56, 0x78, 0x08]))
     = Inr (False, [0x12, 0x34, 0x56, 0x78, 0x08]) \<and>
   fst (anticoll2 (stub [0, 0, 0, 0x30, 0, 0, 5, 0, 0x12, 0x34, 0x56, 0x78, 0x09]))
     = Inr (True, [0x12, 0x34, 0x56, 0x78, 0x09])"
proof -
  let ?good = "stub [0, 0, 0, 0x30, 0, 0, 5, 0, 0x12, 0x34, 0x56, 0x78, 0x08]"
  let ?bad = "stub [0, 0, 0, 0x30, 0, 0, 5, 0, 0x12, 0x34, 0x56, 0x78, 0x09]"
  note good = anticoll_checksum [of ?good "[0x12, 0x34, 0x56, 0x78, 0x08]" 40 _
      ?good "[0x12, 0x34, 0x56, 0x78, 0x08]" 40]
  note bad = anticoll_checksum [of ?bad "[0x12, 0x34, 0x56, 0x78, 0x09]" 40 _
      ?bad "[0x12, 0x34, 0x56, 0x78, 0x09]" 40]
  from good [THEN conjunct1, rule_format, OF card_write_stub_5]
    good [THEN conjunct2, rule_format, OF card_write_stub_5]
    bad [THEN conjunct1, rule_format, OF card_write_stub_5]
    bad [THEN conjunct2, rule_format, OF card_write_stub_5]
  show ?thesis by simp
qed

text \<open>
  C6. For \<open>0 \<le> gain \<le> 7\<close>, \<open>set_antenna_gain\<close> stores the gain and sends one frame,
  the write of \<open>gain << 4\<close> to the RF configuration register (first byte 0x4C); for
  any other gain it raises \<^verbatim>\<open>ValueError\<close> and the session, the stored gain and the
  trace included, is as it was.
\<close>

theorem set_antenna_gain_checked:
  "(0 \<le> gain \<and> gain \<le> 7 \<longrightarrow>
      (\<exists>s'. set_antenna_gain gain s = (Inr (), s') \<and> antenna_gain s' = gain \<and>
            sent s' = sent s @ [[push_bit 1 addr_RFCfgReg AND 0x7E, push_bit 4 gain]])) \<and>
   (\<not> (0 \<le> gain \<and> gain \<le> 7) \<longrightarrow> set_antenna_gain gain s = (Inl ValueError, s))"
  by (simp add: set_antenna_gain_def thn_def bnd_def throw_def dev_write_eq spi_transfer_eq
      sent_def transfers_append)

theorem set_antenna_gain_checked_witness:
  "fst (set_antenna_gain 3 (stub [])) = Inr () \<and>
   antenna_gain (snd (set_antenna_gain 3 (stub []))) = 3 \<and>
   sent (snd (set_antenna_gain 3 (stub []))) = [[0x4C, 0x30]] \<and>
   set_antenna_gain 8 (stub []) = (Inl ValueError, stub []) \<and>
   set_antenna_gain (- 1) (stub []) = (Inl ValueError, stub [])"
  using set_antenna_gain_checked [of 3 "stub []"] set_antenna_gain_checked [of 8 "stub []"]
    set_antenna_gain_checked [of "- 1" "stub []"]
  by (auto simp: sent_def stub_def)





text \<open>
  C9. On a transport that keeps the contract, \<open>calculate_crc\<close> returns for every input.
  What it sends is fixed: the two read-modify-writes, the input bytes into the FIFO,
  the CRC command, between 1 and 255 reads of the CRC-done flag, and then, whatever the
  polls showed, one read of register 0x22 (the low byte) followed by one of register 0x21
  (the high byte). The result is the two answers in that order.
\<close>

theorem calculate_crc_low_then_high:
  assumes "full_duplex s"
  shows "\<exists>s' x y k ts r22 r21.
     calculate_crc data s = (Inr [r22 ! 1, r21 ! 1], s') \<and> 1 \<le> k \<and> k \<le> 255 \<and>
     sent s' = sent s @
       [read_frame addr_DivIrqReg, write_frame addr_DivIrqReg x,
        read_frame addr_FIFOLevelReg, write_frame addr_FIFOLevelReg y] @
       map (write_frame addr_FIFODataReg) data @ [write_frame addr_CommandReg mode_crc] @
       replicate k (read_frame addr_DivIrqReg) @
       [read_frame addr_CRCResultReg22, read_frame addr_CRCResultReg21] \<and>
     transfers (io s') =
       ts @ [(read_frame addr_CRCResultReg22, r22), (read_frame addr_CRCResultReg21, r21)]"
proof -
  from assms returns_calculate_crc [of data] obtain crc s' where
    "calculate_crc data s = (Inr crc, s')"
    by (auto simp: returns_def)
  from calculate_crc_sent [OF this] this show ?thesis
    by (simp add: read_frame_def write_frame_def map_write_frame)
qed


theorem calculate_crc_low_then_high_witness:
  "full_duplex (stub [0, 0, 0, 0x04, 0x11, 0x22]) \<and>
   fst (calculate_crc [0x01, 0x02] (stub [0, 0, 0, 0x04, 0x11, 0x22])) = Inr [0x11, 0x22] \<and>
   sent (snd (calculate_crc [0x01, 0x02] (stub [0, 0, 0, 0x04, 0x11, 0x22]))) =
     [[0x8A, 0], [0x0A, 0], [0x94, 0], [0x14, 0x80], [0x12, 0x01], [0x12, 0x02], [0x02, 0x03],
      [0x8A, 0], [0x8A, 0], [0xC4, 0], [0xC2, 0]]"
proof -
  have fd: "full_duplex (stub [0, 0, 0, 0x04, 0x11, 0x22])"
    by (simp add: full_duplex_def stub_def stub_xfer2_def split: list.splits)
  from calculate_crc_low_then_high [OF fd, of "[0x01, 0x02]"] fd show ?thesis
    by (simp add: run_defs sent_def)
qed




end
